theory Spec2Isabelle
  imports Complex_Main
begin

section \<open>Data model\<close>

text \<open>
  A Python \<open>str\<close> is modelled as a \<open>string\<close> whose characters are the code points below
  256. On that range \<open>str.isspace\<close> (the characters removed by \<open>str.strip()\<close>) and the
  regular expression class \<open>\d\<close> are the two sets below.
\<close>

definition isspace :: "char \<Rightarrow> bool" where
  "isspace c = ((of_char c :: nat) \<in> {9, 10, 11, 12, 13, 28, 29, 30, 31, 32, 133, 160})"

definition isdigit :: "char \<Rightarrow> bool" where
  "isdigit c = (48 \<le> (of_char c :: nat) \<and> (of_char c :: nat) \<le> 57)"

text \<open>\<open>str.strip()\<close>: leading and trailing whitespace removed.\<close>

definition strip :: "string \<Rightarrow> string" where
  "strip s = rev (dropWhile isspace (rev (dropWhile isspace s)))"

text \<open>
  A cell of a pandas frame: a string, an integer, or the missing value. A frame has its
  column labels and its rows, each row holding one cell per column.
\<close>

datatype cell = Str string | Num int | NaN

record dataframe =
  columns :: "string list"
  rows :: "cell list list"

text \<open>The value a row holds under a column label, \<open>None\<close> when the label is absent.\<close>

definition get_value :: "string list \<Rightarrow> cell list \<Rightarrow> string \<Rightarrow> cell option" where
  "get_value cols r c = map_of (zip cols r) c"

text \<open>The values of the rows under the label \<open>c\<close>, in row order.\<close>

definition column_values :: "dataframe \<Rightarrow> string \<Rightarrow> cell option list" where
  "column_values df c = map (\<lambda>r. get_value (columns df) r c) (rows df)"

text \<open>\<open>df[c]\<close>: the values of the column \<open>c\<close>; \<open>None\<close> is Python's KeyError.\<close>

definition column :: "dataframe \<Rightarrow> string \<Rightarrow> cell option list option" where
  "column df c = (if c \<in> set (columns df) then Some (column_values df c) else None)"

datatype error =
  ValueError string | KeyError string | TypeError | AttributeError string
  | MergeError | ZeroDivisionError

section \<open>docx\_to\_csv.py\<close>

definition notice :: string where
  "notice = ''Restricted Information - Not for Further Distribution''"

text \<open>If \<open>p\<close> is a prefix of the text, the text after it.\<close>

fun drop_prefix :: "string \<Rightarrow> string \<Rightarrow> string option" where
  "drop_prefix [] s = Some s"
| "drop_prefix (p # ps) [] = None"
| "drop_prefix (p # ps) (c # cs) = (if p = c then drop_prefix ps cs else None)"

text \<open>
  The pattern \<open>Comments: \(\d+\)\<close> matched at the start of the text: the text after the
  match, or \<open>None\<close>. The digits are taken greedily; the character after them has to be the
  closing parenthesis, which no shorter run of digits can reach.
\<close>

definition match_comments_pattern :: "string \<Rightarrow> string option" where
  "match_comments_pattern s =
     (case drop_prefix ''Comments: ('' s of
        None \<Rightarrow> None
      | Some r \<Rightarrow>
          (if takeWhile isdigit r = [] then None
           else (case dropWhile isdigit r of
                   [] \<Rightarrow> None
                 | c # rest \<Rightarrow> if c = CHR '')'' then Some rest else None)))"

definition cons_first :: "char \<Rightarrow> string list \<Rightarrow> string list" where
  "cons_first c ps = (case ps of [] \<Rightarrow> [[c]] | p # qs \<Rightarrow> (c # p) # qs)"

text \<open>
  \<open>re.split(comments_pattern, input_string)\<close>: the pieces of the text between the
  leftmost non-overlapping matches of the pattern.
\<close>

function re_split_comments :: "string \<Rightarrow> string list" where
  "re_split_comments s =
     (case match_comments_pattern s of
        Some r \<Rightarrow> [] # re_split_comments r
      | None \<Rightarrow> (case s of [] \<Rightarrow> [[]] | c # cs \<Rightarrow> cons_first c (re_split_comments cs)))"
  by pat_completeness auto
termination
proof (relation "measure length")
  show "wf (measure length)" by simp
next
  fix s r :: string
  assume m: "match_comments_pattern s = Some r"
  have dp: "drop_prefix p t = Some u \<Longrightarrow> length u + length p = length t" for p t u
    by (induction p t rule: drop_prefix.induct) (auto split: if_splits)
  from m obtain t where t: "drop_prefix ''Comments: ('' s = Some t"
    and r: "dropWhile isdigit t = CHR '')'' # r"
    by (auto simp: match_comments_pattern_def split: option.splits if_splits list.splits)
  have "length (dropWhile isdigit t) \<le> length t"
    by (rule length_dropWhile_le)
  with r have "length r < length t" by simp
  moreover from dp [OF t] have "length t \<le> length s" by simp
  ultimately show "(r, s) \<in> measure length" by simp
next
  fix s :: string and c cs
  assume "s = c # cs"
  then show "(cs, s) \<in> measure length" by simp
qed

declare re_split_comments.simps [simp del]

text \<open>\<open>re.split(r"\n", data_raw)\<close>, and the same split on any one character.\<close>

fun split_on :: "char \<Rightarrow> string \<Rightarrow> string list" where
  "split_on d [] = [[]]"
| "split_on d (c # cs) =
     (if c = d then [] # split_on d cs else cons_first c (split_on d cs))"

text \<open>
  \<open>comment.split(". ", 1)\<close> has two parts when the separator occurs, the second being the
  text after its first occurrence; \<open>after_separator\<close> is that second part.
\<close>

fun after_separator :: "string \<Rightarrow> string option" where
  "after_separator (a # b # cs) =
     (if a = CHR ''.'' \<and> b = CHR '' '' then Some cs else after_separator (b # cs))"
| "after_separator _ = None"

text \<open>\<open>comment.split(". ", 1)[-1]\<close>: the last part, the whole text when nothing was split.\<close>

definition split_last :: "string \<Rightarrow> string" where
  "split_last comment = (case after_separator comment of Some r \<Rightarrow> r | None \<Rightarrow> comment)"

text \<open>The candidate lines: \<open>comment_list_raw\<close> of the source, from the pieces of the text.\<close>

definition comment_list_raw :: "string list \<Rightarrow> string list" where
  "comment_list_raw split_string = split_on CHR ''\<newline>'' (strip (split_string ! 1))"

definition comment_list_pre :: "string list \<Rightarrow> string list" where
  "comment_list_pre raw =
     map (\<lambda>comment. strip (split_last comment))
       (filter (\<lambda>comment. comment \<noteq> [] \<and> comment \<noteq> notice) raw)"

text \<open>\<open>pd.DataFrame(xs, columns=["comment"])\<close>.\<close>

definition comment_frame :: "string list \<Rightarrow> dataframe" where
  "comment_frame xs = \<lparr>columns = [''comment''], rows = map (\<lambda>x. [Str x]) xs\<rparr>"

text \<open>\<open>df.replace(a, b)\<close>: every cell equal to \<open>a\<close> becomes \<open>b\<close>.\<close>

definition replace :: "cell \<Rightarrow> cell \<Rightarrow> dataframe \<Rightarrow> dataframe" where
  "replace a b df = df\<lparr>rows := map (map (\<lambda>x. if x = a then b else x)) (rows df)\<rparr>"

text \<open>\<open>df[df[c] != v]\<close>: the rows whose value under \<open>c\<close> differs from \<open>v\<close>.\<close>

definition rows_ne :: "string \<Rightarrow> cell \<Rightarrow> dataframe \<Rightarrow> dataframe" where
  "rows_ne c v df =
     df\<lparr>rows := filter (\<lambda>r. get_value (columns df) r c \<noteq> Some v) (rows df)\<rparr>"

text \<open>The last statements of \<open>string_to_df\<close>: the frame built from the candidate lines.\<close>

definition comments_to_df :: "string list \<Rightarrow> dataframe" where
  "comments_to_df raw =
     (let df = comment_frame (comment_list_pre raw);
          df = replace (Str ''nan'') (Str ''No comment'') df;
          df = rows_ne ''comment'' (Str []) df
      in df)"

definition string_to_df :: "string \<Rightarrow> error + dataframe" where
  "string_to_df input_string =
     (let split_string = re_split_comments input_string in
      if length split_string = 1 then Inl (ValueError ''The Comments section was not found'')
      else Inr (comments_to_df (comment_list_raw split_string)))"

text \<open>
  The specification's words for a text that holds the section marker: somewhere in it stands
  \<open>Comments: (\<close>, then one or more digits, then the closing parenthesis.
\<close>

definition contains_marker :: "string \<Rightarrow> bool" where
  "contains_marker s =
     (\<exists>pre ds suf. ds \<noteq> [] \<and> list_all isdigit ds \<and>
        s = pre @ ''Comments: ('' @ ds @ '')'' @ suf)"

section \<open>utils.py\<close>

definition split_sentences_helper :: "string \<Rightarrow> string list" where
  "split_sentences_helper para = split_on CHR ''.'' para"

text \<open>
  \<open>df["comment"].apply(split_sentences_helper)\<close>: \<open>re.split\<close> raises TypeError on a cell
  that is not a string.
\<close>

fun apply_split_sentences :: "cell option list \<Rightarrow> error + string list list" where
  "apply_split_sentences [] = Inr []"
| "apply_split_sentences (Some (Str s) # xs) =
     (case apply_split_sentences xs of
        Inl e \<Rightarrow> Inl e
      | Inr ys \<Rightarrow> Inr (split_sentences_helper s # ys))"
| "apply_split_sentences (x # xs) = Inl TypeError"

text \<open>\<open>df.dropna()\<close>: the rows without a missing value.\<close>

definition dropna :: "dataframe \<Rightarrow> dataframe" where
  "dropna df = df\<lparr>rows := filter (\<lambda>r. NaN \<notin> set r) (rows df)\<rparr>"

text \<open>\<open>df[df != v]\<close>: a cell equal to \<open>v\<close> becomes the missing value.\<close>

definition mask_ne :: "cell \<Rightarrow> dataframe \<Rightarrow> dataframe" where
  "mask_ne v df = df\<lparr>rows := map (map (\<lambda>x. if x \<noteq> v then x else NaN)) (rows df)\<rparr>"

text \<open>\<open>.str.strip()\<close> on one cell: a value that is not a string becomes missing.\<close>

definition str_strip :: "cell \<Rightarrow> cell" where
  "str_strip x = (case x of Str s \<Rightarrow> Str (strip s) | Num i \<Rightarrow> NaN | NaN \<Rightarrow> NaN)"

text \<open>\<open>df[c] = df[c].f()\<close>: the cells under the label \<open>c\<close> are replaced by their images.\<close>

definition map_column :: "string \<Rightarrow> (cell \<Rightarrow> cell) \<Rightarrow> dataframe \<Rightarrow> dataframe" where
  "map_column c f df =
     df\<lparr>rows := map (\<lambda>r. map (\<lambda>(k, x). if k = c then f x else x) (zip (columns df) r))
                  (rows df)\<rparr>"

text \<open>
  \<open>break_into_sentences\<close>, from the frame that \<open>pd.read_csv\<close> returned. The exploded
  column \<open>sentences\<close> is the only one kept, renamed \<open>comment\<close>.
\<close>

definition break_into_sentences :: "dataframe \<Rightarrow> error + dataframe" where
  "break_into_sentences df =
     (case column df ''comment'' of
        None \<Rightarrow> Inl (KeyError ''comment'')
      | Some col \<Rightarrow>
          (case apply_split_sentences col of
             Inl e \<Rightarrow> Inl e
           | Inr sentences \<Rightarrow>
               (let new_df = comment_frame (concat sentences);
                    new_df = dropna new_df;
                    new_df = dropna (mask_ne (Str '' '') new_df);
                    new_df = map_column ''comment'' str_strip new_df
                in Inr new_df)))"

text \<open>
  \<open>df.drop_duplicates(subset=[c])\<close>: a row is kept when its value under \<open>c\<close> has not
  occurred in an earlier row.
\<close>

fun keep_first :: "cell option list \<Rightarrow> (cell list \<Rightarrow> cell option) \<Rightarrow> cell list list \<Rightarrow> cell list list" where
  "keep_first seen key [] = []"
| "keep_first seen key (r # rs) =
     (if key r \<in> set seen then keep_first seen key rs
      else r # keep_first (key r # seen) key rs)"

definition drop_duplicates :: "string \<Rightarrow> dataframe \<Rightarrow> dataframe" where
  "drop_duplicates c df =
     df\<lparr>rows := keep_first [] (\<lambda>r. get_value (columns df) r c) (rows df)\<rparr>"

text \<open>
  The kind of the values of a key column, as \<open>read_csv\<close> types it: a column with no row,
  or with a string in it, has the dtype \<open>object\<close>; a column of numbers, with or without
  missing values, has a numeric dtype. (A column that \<open>read_csv\<close> returns does not hold
  strings and numbers together.)
\<close>

datatype dtype = Object | Numeric

definition is_str :: "cell option \<Rightarrow> bool" where
  "is_str v = (case v of Some (Str s) \<Rightarrow> True | _ \<Rightarrow> False)"

definition key_dtype :: "cell option list \<Rightarrow> dtype" where
  "key_dtype vs = (if vs = [] \<or> list_ex is_str vs then Object else Numeric)"

text \<open>
  The test of \<open>pd.merge\<close> on the two key columns: it is skipped when exactly one of them
  is empty, and it raises ValueError for a column of strings against a column of numbers.
\<close>

definition dtype_mismatch :: "cell option list \<Rightarrow> cell option list \<Rightarrow> bool" where
  "dtype_mismatch lk rk = (lk \<noteq> [] \<and> rk \<noteq> [] \<and> key_dtype lk \<noteq> key_dtype rk)"

text \<open>\<open>Index.duplicated()\<close>: a label is flagged when it has occurred before.\<close>

fun duplicated_seen :: "string list \<Rightarrow> string list \<Rightarrow> bool list" where
  "duplicated_seen seen [] = []"
| "duplicated_seen seen (x # xs) = (x \<in> set seen) # duplicated_seen (x # seen) xs"

definition duplicated :: "string list \<Rightarrow> bool list" where
  "duplicated xs = duplicated_seen [] xs"

text \<open>
  The labels of one side after the merge: a label that both sides have gets the suffix of
  its side (\<open>_x\<close> on the left, \<open>_y\<close> on the right).
\<close>

definition rename_overlap :: "string \<Rightarrow> string list \<Rightarrow> string list \<Rightarrow> string list" where
  "rename_overlap suffix to_rename labels =
     map (\<lambda>x. if x \<in> set to_rename then x @ suffix else x) labels"

text \<open>
  The renamed labels that repeat an earlier renamed label of their side although the
  original label did not repeat an earlier one.
\<close>

definition suffix_duplicates :: "string list \<Rightarrow> string list \<Rightarrow> string list" where
  "suffix_duplicates labels renamed =
     map fst (filter (\<lambda>(x, new, old). new \<and> \<not> old)
                (zip renamed (zip (duplicated renamed) (duplicated labels))))"

text \<open>
  The label check of \<open>pd.merge\<close> on the key \<open>c\<close> (pandas 2): the key column is kept once,
  the labels that the two sides share are suffixed, and the duplicates that the suffixes
  cause are collected; \<open>pd.merge\<close> raises MergeError when there is one.
\<close>

definition items_overlap_dups :: "string \<Rightarrow> string list \<Rightarrow> string list \<Rightarrow> string list" where
  "items_overlap_dups c left_columns right_columns =
     (let left = left_columns;
          right = filter (\<lambda>k. k \<noteq> c) right_columns;
          to_rename = filter (\<lambda>k. k \<in> set right) left;
          llabels = rename_overlap ''_x'' to_rename left;
          rlabels = rename_overlap ''_y'' to_rename right
      in suffix_duplicates left llabels @ suffix_duplicates right rlabels)"

text \<open>The exception that \<open>pd.merge(l, r, on=c, how="inner")\<close> raises, if any.\<close>

definition merge_error :: "string \<Rightarrow> dataframe \<Rightarrow> dataframe \<Rightarrow> error option" where
  "merge_error c l r =
     (if dtype_mismatch (column_values l c) (column_values r c)
      then Some (ValueError ''You are trying to merge on columns of different dtypes'')
      else if items_overlap_dups c (columns l) (columns r) \<noteq> [] then Some MergeError
      else None)"

text \<open>
  The rows of the inner merge: one row for each pair of a row of \<open>l\<close> and a row of \<open>r\<close>
  holding the same value under \<open>c\<close>, in the order of \<open>l\<close>. The pair stands for the merged
  row; the source uses the number of rows only.
\<close>

definition merge_rows :: "string \<Rightarrow> dataframe \<Rightarrow> dataframe \<Rightarrow> (cell list \<times> cell list) list" where
  "merge_rows c l r =
     concat (map (\<lambda>a. map (\<lambda>b. (a, b))
                        (filter (\<lambda>b. get_value (columns r) b c = get_value (columns l) a c)
                           (rows r)))
               (rows l))"

definition merge_inner :: "string \<Rightarrow> dataframe \<Rightarrow> dataframe \<Rightarrow> error + (cell list \<times> cell list) list" where
  "merge_inner c l r =
     (case merge_error c l r of Some e \<Rightarrow> Inl e | None \<Rightarrow> Inr (merge_rows c l r))"

text \<open>Python's \<open>a / b\<close> on two integers, in exact arithmetic.\<close>

definition truediv :: "nat \<Rightarrow> nat \<Rightarrow> error + real" where
  "truediv a b = (if b = 0 then Inl ZeroDivisionError else Inr (real a / real b))"

text \<open>
  \<open>count_duplicates\<close>, from the two frames that \<open>pd.read_csv\<close> returned; \<open>read_csv\<close>
  returns a frame or raises, so the test of the source for \<open>None\<close> never fires. The
  exceptions of \<open>pd.merge\<close> are not caught. Values are compared by equality, the missing
  value being equal to itself as in \<open>drop_duplicates\<close> and \<open>merge\<close>. The result is a Python
  float; the quotient is taken in exact arithmetic here, and the values -1, 0 and 100 of
  the properties below are exact in both.
\<close>

definition count_duplicates :: "dataframe \<Rightarrow> dataframe \<Rightarrow> error + real" where
  "count_duplicates df1 df2 =
     (if ''comment'' \<notin> set (columns df1) \<or> ''comment'' \<notin> set (columns df2) then Inr (- 1)
      else
        (let unique_df1 = drop_duplicates ''comment'' df1;
             unique_df2 = drop_duplicates ''comment'' df2
         in case merge_inner ''comment'' unique_df1 unique_df2 of
              Inl e \<Rightarrow> Inl e
            | Inr merged \<Rightarrow>
                (let duplicates = length merged;
                     len1 = length (rows unique_df1);
                     len2 = length (rows unique_df2);
                     smaller_len = min len1 len2
                 in if smaller_len = 0 then Inr 0
                    else (case truediv duplicates smaller_len of
                            Inl e \<Rightarrow> Inl e
                          | Inr q \<Rightarrow> Inr (q * 100)))))"

text \<open>
  The specification's formula for the comparison, on the sets of values of the two
  \<open>comment\<close> columns: the size of the overlap over the size of the smaller set, times 100,
  and 0 when the smaller set is empty.
\<close>

definition overlap_percentage :: "cell option set \<Rightarrow> cell option set \<Rightarrow> real" where
  "overlap_percentage K1 K2 =
     (if min (card K1) (card K2) = 0 then 0
      else real (card (K1 \<inter> K2)) / real (min (card K1) (card K2)) * 100)"

text \<open>\<open>Series.isin(selected_topics)\<close> on one value, the list holding integers.\<close>

definition isin :: "int list \<Rightarrow> cell option \<Rightarrow> bool" where
  "isin selected_topics v =
     (case v of Some (Num i) \<Rightarrow> i \<in> set selected_topics | _ \<Rightarrow> False)"

text \<open>\<open>df.drop(columns=c)\<close>: the label and the cells under it are removed.\<close>

definition drop_columns :: "string \<Rightarrow> dataframe \<Rightarrow> dataframe" where
  "drop_columns c df =
     \<lparr>columns = filter (\<lambda>k. k \<noteq> c) (columns df),
      rows = map (\<lambda>r. map snd (filter (\<lambda>(k, x). k \<noteq> c) (zip (columns df) r))) (rows df)\<rparr>"

text \<open>
  \<open>topic_aggregation\<close>: the result is the file written by \<open>to_csv\<close>, its path and the
  frame it holds.
\<close>

definition topic_aggregation :: "string \<Rightarrow> int list \<Rightarrow> dataframe \<Rightarrow> error + (string \<times> dataframe)" where
  "topic_aggregation save_path selected_topics df =
     (case column df ''topics'' of
        None \<Rightarrow> Inl (KeyError ''topics'')
      | Some topics \<Rightarrow>
          (let df_aggregated =
                 drop_columns ''topics''
                   (df\<lparr>rows := filter (\<lambda>r. isin selected_topics (get_value (columns df) r ''topics''))
                                  (rows df)\<rparr>)
           in Inr (save_path, df_aggregated)))"

text \<open>
  A frame as pandas builds it: the labels are pairwise distinct and every row has one cell
  per label.
\<close>

definition wf_dataframe :: "dataframe \<Rightarrow> bool" where
  "wf_dataframe df =
     (distinct (columns df) \<and> list_all (\<lambda>r. length r = length (columns df)) (rows df))"

text \<open>A row read as its (label, value) pairs.\<close>

definition row_items :: "dataframe \<Rightarrow> cell list \<Rightarrow> (string \<times> cell) list" where
  "row_items df r = zip (columns df) r"

section \<open>app.py\<close>

text \<open>
  The fields of \<open>App\<close> that the training run, the three view buttons and the subset export
  read or write. A button is \<open>True\<close> in the state \<open>normal\<close> and \<open>False\<close> in the state
  \<open>disabled\<close>. The topic model is an object of the class \<open>TopicModelingPipeline\<close>, of the
  type \<open>'m\<close> here; the attribute \<open>df\<close> does not exist before a training run has set it.
\<close>

record 'm app =
  model_status_var :: string
  detailed_info_button :: bool
  hierarchy_button :: bool
  barchart_button :: bool
  model :: "'m option"
  df :: "dataframe option"

definition update_button_states :: "'m app \<Rightarrow> 'm app" where
  "update_button_states self =
     (let state = (model_status_var self = ''Model training done.'')
      in self\<lparr>detailed_info_button := state, hierarchy_button := state,
              barchart_button := state\<rparr>)"

text \<open>
  \<open>__init__\<close>: the variables of \<open>_init_vars\<close>, then the widgets, the three buttons being
  created in the state \<open>normal\<close> and set by \<open>_update_button_states\<close>.
\<close>

definition init :: "'m app" where
  "init =
     update_button_states
       \<lparr>model_status_var = ''Model not started'', detailed_info_button = True,
        hierarchy_button = True, barchart_button = True, model = None, df = None\<rparr>"

text \<open>\<open>_run_model\<close>: the status text is set and the training thread is started.\<close>

definition run_model :: "'m app \<Rightarrow> 'm app" where
  "run_model self = self\<lparr>model_status_var := ''Model is training...''\<rparr>"

text \<open>\<open>_update_model_status\<close>, where \<open>_is_threadsafe\<close> returns \<open>True\<close>.\<close>

definition update_model_status :: "string \<Rightarrow> 'm app \<Rightarrow> 'm app" where
  "update_model_status message self =
     update_button_states (self\<lparr>model_status_var := message\<rparr>)"

text \<open>
  What the body of the \<open>try\<close> block of \<open>_start_model_training\<close> did: an exception before
  the pipeline was assigned (reading the file, parsing the number of topics, building the
  pipeline), an exception of \<open>fit_model\<close> on the new pipeline, or the fitted pipeline and
  the frame it returned.
\<close>

datatype 'm training = Raised_before_model | Raised_in_fit 'm | Fitted 'm dataframe

fun start_model_training :: "'m training \<Rightarrow> 'm app \<Rightarrow> 'm app" where
  "start_model_training Raised_before_model self =
     update_model_status ''Model training failed.'' self"
| "start_model_training (Raised_in_fit m) self =
     update_model_status ''Model training failed.'' (self\<lparr>model := Some m\<rparr>)"
| "start_model_training (Fitted m d) self =
     update_model_status ''Model training done.'' (self\<lparr>model := Some m, df := Some d\<rparr>)"

text \<open>
  \<open>_csv_subset\<close>. \<open>selected_topics\<close> is the list that \<open>list(map(int, ...))\<close> built from the
  entry, \<open>None\<close> when \<open>int\<close> raised ValueError; the file is named within the data directory.
\<close>

definition csv_subset :: "int list option \<Rightarrow> string \<Rightarrow> 'm app \<Rightarrow> error + (string \<times> dataframe)" where
  "csv_subset selected_topics filename_var self =
     (case selected_topics of
        None \<Rightarrow> Inl (ValueError ''invalid literal for int()'')
      | Some topics \<Rightarrow>
          (let file_name = filename_var @ ''.csv'' in
           case df self of
             None \<Rightarrow> Inl (AttributeError ''df'')
           | Some d \<Rightarrow> topic_aggregation file_name topics d))"

text \<open>
  The three view commands call a method of \<open>self.model\<close> inside \<open>try\<close>; with no model the
  AttributeError is caught and an error box is shown. \<open>view\<close> is what the method of the
  pipeline leads to. A click on a button runs its command unless the button is disabled.
\<close>

datatype view_result = Not_invoked | Error_box | Shown

definition view_command :: "('m \<Rightarrow> view_result) \<Rightarrow> 'm app \<Rightarrow> view_result" where
  "view_command view self = (case model self of None \<Rightarrow> Error_box | Some m \<Rightarrow> view m)"

definition click :: "bool \<Rightarrow> view_result \<Rightarrow> view_result" where
  "click button command = (if button then command else Not_invoked)"

definition click_detailed_info :: "('m \<Rightarrow> view_result) \<Rightarrow> 'm app \<Rightarrow> view_result" where
  "click_detailed_info view self = click (detailed_info_button self) (view_command view self)"

definition click_hierarchy :: "('m \<Rightarrow> view_result) \<Rightarrow> 'm app \<Rightarrow> view_result" where
  "click_hierarchy view self = click (hierarchy_button self) (view_command view self)"

definition click_barchart :: "('m \<Rightarrow> view_result) \<Rightarrow> 'm app \<Rightarrow> view_result" where
  "click_barchart view self = click (barchart_button self) (view_command view self)"

text \<open>The session phases of the specification, read from the status text.\<close>

datatype phase = Idle | Training | Ready | Failed

definition phase_of :: "'m app \<Rightarrow> phase option" where
  "phase_of self =
     (if model_status_var self = ''Model not started'' then Some Idle
      else if model_status_var self = ''Model is training...'' then Some Training
      else if model_status_var self = ''Model training done.'' then Some Ready
      else if model_status_var self = ''Model training failed.'' then Some Failed
      else None)"

section \<open>Properties of the comment parser\<close>

subsection \<open>The section marker\<close>

lemma drop_prefix_iff: "drop_prefix p s = Some r \<longleftrightarrow> s = p @ r"
  by (induction p s rule: drop_prefix.induct) auto

lemma paren_not_digit: "\<not> isdigit CHR '')''"
  by (simp add: isdigit_def)

lemma match_marker_text:
  assumes "ds \<noteq> []" and "list_all isdigit ds"
  shows "match_comments_pattern (''Comments: ('' @ ds @ '')'' @ suf) = Some suf"
proof -
  have d: "drop_prefix ''Comments: ('' (''Comments: ('' @ ds @ '')'' @ suf) = Some (ds @ '')'' @ suf)"
    by (simp only: drop_prefix_iff)
  have t: "takeWhile isdigit (ds @ '')'' @ suf) = ds"
    using assms(2) by (simp add: takeWhile_append2 list_all_iff paren_not_digit)
  have w: "dropWhile isdigit (ds @ '')'' @ suf) = '')'' @ suf"
    using assms(2) by (simp add: dropWhile_append2 list_all_iff paren_not_digit)
  show ?thesis
    unfolding match_comments_pattern_def d using assms(1) t w by simp
qed

lemma match_SomeD:
  assumes "match_comments_pattern s = Some r"
  shows "\<exists>ds. ds \<noteq> [] \<and> list_all isdigit ds \<and> s = ''Comments: ('' @ ds @ '')'' @ r"
proof -
  from assms obtain t where t: "drop_prefix ''Comments: ('' s = Some t"
    and ne: "takeWhile isdigit t \<noteq> []"
    and r: "dropWhile isdigit t = CHR '')'' # r"
    by (auto simp: match_comments_pattern_def split: option.splits if_splits list.splits)
  have "t = takeWhile isdigit t @ dropWhile isdigit t" by simp
  with r have "t = takeWhile isdigit t @ '')'' @ r" by simp
  moreover have "list_all isdigit (takeWhile isdigit t)"
    by (simp add: list_all_iff) (meson set_takeWhileD)
  moreover from t have "s = ''Comments: ('' @ t" by (simp only: drop_prefix_iff)
  ultimately show ?thesis using ne by metis
qed

lemma re_split_comments_ne: "re_split_comments s \<noteq> []"
  by (subst re_split_comments.simps) (simp add: cons_first_def split: option.splits list.splits)

lemma length_cons_first: "ps \<noteq> [] \<Longrightarrow> length (cons_first c ps) = length ps"
  by (cases ps) (simp_all add: cons_first_def)

lemma contains_marker_split: "contains_marker s \<Longrightarrow> length (re_split_comments s) \<noteq> 1"
proof -
  have "length (re_split_comments (pre @ ''Comments: ('' @ ds @ '')'' @ suf)) \<noteq> 1"
    if "ds \<noteq> []" "list_all isdigit ds" for pre ds suf
  proof (induction pre)
    case Nil
    have "re_split_comments (''Comments: ('' @ ds @ '')'' @ suf) = [] # re_split_comments suf"
      by (subst re_split_comments.simps) (simp only: match_marker_text [OF that] option.case)
    then show ?case using re_split_comments_ne [of suf] by (cases "re_split_comments suf") simp_all
  next
    case (Cons c pre)
    let ?t = "pre @ ''Comments: ('' @ ds @ '')'' @ suf"
    show ?case
    proof (cases "match_comments_pattern (c # ?t)")
      case None
      then have "re_split_comments (c # ?t) = cons_first c (re_split_comments ?t)"
        by (subst re_split_comments.simps) simp
      then show ?thesis using Cons.IH by (simp add: length_cons_first re_split_comments_ne)
    next
      case (Some r)
      then have "re_split_comments (c # ?t) = [] # re_split_comments r"
        by (subst re_split_comments.simps) simp
      then show ?thesis using re_split_comments_ne [of r] by (cases "re_split_comments r") simp_all
    qed
  qed
  then show "contains_marker s \<Longrightarrow> length (re_split_comments s) \<noteq> 1"
    unfolding contains_marker_def by blast
qed

lemma split_contains_marker: "length (re_split_comments s) \<noteq> 1 \<Longrightarrow> contains_marker s"
proof (induction s rule: re_split_comments.induct)
  case (1 s)
  show ?case
  proof (cases "match_comments_pattern s")
    case (Some r)
    from match_SomeD [OF Some] obtain ds where "ds \<noteq> []" "list_all isdigit ds"
      "s = [] @ ''Comments: ('' @ ds @ '')'' @ r" by auto
    then show ?thesis unfolding contains_marker_def by blast
  next
    case None
    show ?thesis
    proof (cases s)
      case Nil
      with None "1.prems" show ?thesis by (subst (asm) re_split_comments.simps) simp
    next
      case (Cons c cs)
      with None have "re_split_comments s = cons_first c (re_split_comments cs)"
        by (subst re_split_comments.simps) simp
      with "1.prems" have "length (re_split_comments cs) \<noteq> 1"
        by (simp add: length_cons_first re_split_comments_ne)
      from "1.IH"(1) [OF None Cons this] obtain pre ds suf where "ds \<noteq> []" "list_all isdigit ds"
        "cs = pre @ ''Comments: ('' @ ds @ '')'' @ suf" unfolding contains_marker_def by blast
      then have "ds \<noteq> [] \<and> list_all isdigit ds \<and> s = (c # pre) @ ''Comments: ('' @ ds @ '')'' @ suf"
        using Cons by simp
      then show ?thesis unfolding contains_marker_def by blast
    qed
  qed
qed

lemma contains_marker_iff: "contains_marker s \<longleftrightarrow> length (re_split_comments s) \<noteq> 1"
  using contains_marker_split split_contains_marker by blast

subsection \<open>The table of the candidate lines\<close>

lemma columns_comments_to_df: "columns (comments_to_df raw) = [''comment'']"
  by (simp add: comments_to_df_def comment_frame_def replace_def rows_ne_def)

lemma replace_filter_rows:
  "filter (\<lambda>r. get_value [''comment''] r ''comment'' \<noteq> Some (Str []))
        (map (map (\<lambda>x. if x = Str ''nan'' then Str ''No comment'' else x))
           (map (\<lambda>x. [Str x]) xs)) =
   map (\<lambda>x. [Str x])
       (filter (\<lambda>x. x \<noteq> []) (map (\<lambda>x. if x = ''nan'' then ''No comment'' else x) xs))"
  by (induction xs) (simp_all add: get_value_def)

lemma rows_comments_to_df:
  "rows (comments_to_df raw) =
     map (\<lambda>x. [Str x])
       (filter (\<lambda>x. x \<noteq> [])
          (map (\<lambda>x. if x = ''nan'' then ''No comment'' else x) (comment_list_pre raw)))"
proof -
  have "rows (comments_to_df raw) =
      filter (\<lambda>r. get_value [''comment''] r ''comment'' \<noteq> Some (Str []))
        (map (map (\<lambda>x. if x = Str ''nan'' then Str ''No comment'' else x))
           (map (\<lambda>x. [Str x]) (comment_list_pre raw)))"
    by (simp add: comments_to_df_def comment_frame_def replace_def rows_ne_def)
  then show ?thesis by (simp only: replace_filter_rows)
qed

lemma rows_comments_to_df_append:
  "rows (comments_to_df (xs @ ys)) = rows (comments_to_df xs) @ rows (comments_to_df ys)"
  by (simp add: rows_comments_to_df comment_list_pre_def)

lemma split_last_notice: "split_last notice = notice"
  by (simp add: split_last_def notice_def)

lemma strip_nan: "strip ''nan'' = ''nan''"
  by (simp add: strip_def isspace_def)

lemma nan_line_kept:
  assumes "split_last l = ''nan''"
  shows "l \<noteq> [] \<and> l \<noteq> notice"
proof -
  have "l \<noteq> []" using assms by (auto simp: split_last_def)
  moreover have "l \<noteq> notice"
  proof
    assume "l = notice"
    with assms split_last_notice have "notice = ''nan''" by simp
    then show False by (simp add: notice_def)
  qed
  ultimately show ?thesis by simp
qed

lemma rows_comments_to_df_nan:
  assumes "split_last l = ''nan''"
  shows "rows (comments_to_df [l]) = [[Str ''No comment'']]"
  using assms nan_line_kept [OF assms]
  by (simp add: rows_comments_to_df comment_list_pre_def strip_nan)

lemma string_to_df_marker:
  "contains_marker s \<Longrightarrow>
     string_to_df s = Inr (comments_to_df (comment_list_raw (re_split_comments s)))"
  by (simp add: string_to_df_def contains_marker_iff Let_def)

lemma column_values_comments_to_df:
  "column_values (comments_to_df raw) ''comment'' =
     map (\<lambda>x. Some (Str x))
       (filter (\<lambda>x. x \<noteq> [])
          (map (\<lambda>x. if x = ''nan'' then ''No comment'' else x) (comment_list_pre raw)))"
  by (simp add: column_values_def columns_comments_to_df rows_comments_to_df get_value_def comp_def)

lemma notice_record_origin:
  assumes "Some (Str notice) \<in> set (column_values (comments_to_df raw) ''comment'')"
  shows "\<exists>l \<in> set raw. l \<noteq> notice \<and> strip (split_last l) = notice"
proof -
  from assms obtain x where x: "x \<in> set (comment_list_pre raw)"
    and n: "(if x = ''nan'' then ''No comment'' else x) = notice"
    by (auto simp: column_values_comments_to_df)
  from x obtain l where l: "l \<in> set raw" "l \<noteq> notice" "x = strip (split_last l)"
    unfolding comment_list_pre_def by auto
  have "''No comment'' \<noteq> notice" by (simp add: notice_def)
  with n have "x = notice" by (simp split: if_splits)
  with l show ?thesis by blast
qed

lemma comment_list_pre_without_notice:
  "comment_list_pre (filter (\<lambda>l. l \<noteq> notice) raw) = comment_list_pre raw"
  unfolding comment_list_pre_def by (simp add: conj_commute cong: conj_cong)

lemma comments_to_df_without_notice:
  "comments_to_df (filter (\<lambda>l. l \<noteq> notice) raw) = comments_to_df raw"
  by (simp only: comments_to_df_def comment_list_pre_without_notice)

text \<open>
  Claim C1. The text of the scenario, with its two numbered lines and the notice line, gives
  the comment table holding \<open>Great place to work.\<close> and \<open>No comment\<close>, in that order. In
  general, for a text with the section marker, a candidate line that is exactly \<open>nan\<close> once
  its numbering prefix is stripped gives the record \<open>No comment\<close>, which stands in the table
  between the records of the lines before it and the records of the lines after it.
\<close>

theorem nan_line_yields_no_comment:
  "string_to_df ''Comments: (2)\<newline>1. Great place to work.\<newline>2. nan\<newline>Restricted Information - Not for Further Distribution\<newline>''
     = Inr \<lparr>columns = [''comment''],
            rows = [[Str ''Great place to work.''], [Str ''No comment'']]\<rparr>
   \<and> (\<forall>s pre l post.
          contains_marker s \<and> comment_list_raw (re_split_comments s) = pre @ l # post \<and>
          split_last l = ''nan'' \<longrightarrow>
          (\<exists>df. string_to_df s = Inr df \<and> columns df = [''comment''] \<and>
                rows df = rows (comments_to_df pre) @ [Str ''No comment''] # rows (comments_to_df post)))"
proof (intro conjI allI impI)
  show "string_to_df ''Comments: (2)\<newline>1. Great place to work.\<newline>2. nan\<newline>Restricted Information - Not for Further Distribution\<newline>''
     = Inr \<lparr>columns = [''comment''],
            rows = [[Str ''Great place to work.''], [Str ''No comment'']]\<rparr>"
    by code_simp
next
  fix s pre l post
  assume a: "contains_marker s \<and> comment_list_raw (re_split_comments s) = pre @ l # post \<and>
          split_last l = ''nan''"
  let ?df = "comments_to_df (pre @ l # post)"
  have "string_to_df s = Inr ?df"
    using a string_to_df_marker [of s] by simp
  moreover have "columns ?df = [''comment'']"
    by (rule columns_comments_to_df)
  moreover have "rows ?df = rows (comments_to_df pre) @ [Str ''No comment''] # rows (comments_to_df post)"
  proof -
    have "rows ?df = rows (comments_to_df pre) @ rows (comments_to_df ([l] @ post))"
      by (simp only: rows_comments_to_df_append append_Cons append_Nil)
    also have "rows (comments_to_df ([l] @ post)) = rows (comments_to_df [l]) @ rows (comments_to_df post)"
      by (rule rows_comments_to_df_append)
    finally show ?thesis using a by (simp add: rows_comments_to_df_nan)
  qed
  ultimately show "\<exists>df. string_to_df s = Inr df \<and> columns df = [''comment''] \<and>
                rows df = rows (comments_to_df pre) @ [Str ''No comment''] # rows (comments_to_df post)"
    by blast
qed

text \<open>The general part of C1 at a text of three numbered lines, the second being \<open>nan\<close>.\<close>

theorem nan_line_yields_no_comment_witness:
  "contains_marker ''Comments: (1)\<newline>1. fine\<newline>2. nan\<newline>3. good''
   \<and> comment_list_raw (re_split_comments ''Comments: (1)\<newline>1. fine\<newline>2. nan\<newline>3. good'')
       = [''1. fine''] @ ''2. nan'' # [''3. good'']
   \<and> split_last ''2. nan'' = ''nan''
   \<and> string_to_df ''Comments: (1)\<newline>1. fine\<newline>2. nan\<newline>3. good''
       = Inr \<lparr>columns = [''comment''], rows = [[Str ''fine''], [Str ''No comment''], [Str ''good'']]\<rparr>"
proof -
  let ?s = "''Comments: (1)\<newline>1. fine\<newline>2. nan\<newline>3. good''"
  have h1: "contains_marker ?s"
    unfolding contains_marker_iff by code_simp
  have h2: "comment_list_raw (re_split_comments ?s) = [''1. fine''] @ ''2. nan'' # [''3. good'']"
    by code_simp
  have h3: "split_last ''2. nan'' = ''nan''"
    by code_simp
  have r1: "rows (comments_to_df [''1. fine'']) = [[Str ''fine'']]" by code_simp
  have r2: "rows (comments_to_df [''3. good'']) = [[Str ''good'']]" by code_simp
  from nan_line_yields_no_comment h1 h2 h3
  obtain df where "string_to_df ?s = Inr df" "columns df = [''comment'']"
    "rows df = rows (comments_to_df [''1. fine'']) @ [Str ''No comment''] # rows (comments_to_df [''3. good''])"
    by blast
  then have "string_to_df ?s = Inr \<lparr>columns = [''comment''], rows = [[Str ''fine''], [Str ''No comment''], [Str ''good'']]\<rparr>"
    using r1 r2 by simp
  with h1 h2 h3 show ?thesis by blast
qed

text \<open>
  Claim C4 says that no record of the table equals the distribution notice. The notice is
  tested against the candidate line as it stands, before the numbering prefix is stripped
  and before the line is trimmed: a numbered notice line passes the test and becomes a
  record that equals the notice.
\<close>

theorem notice_record_counterexample:
  "contains_marker ''Comments: (1)\<newline>1. Restricted Information - Not for Further Distribution''
   \<and> string_to_df ''Comments: (1)\<newline>1. Restricted Information - Not for Further Distribution''
       = Inr \<lparr>columns = [''comment''],
              rows = [[Str ''Restricted Information - Not for Further Distribution'']]\<rparr>
   \<and> Some (Str notice) \<in> set (column_values
         \<lparr>columns = [''comment''],
          rows = [[Str ''Restricted Information - Not for Further Distribution'']]\<rparr> ''comment'')"
proof (intro conjI)
  show "contains_marker ''Comments: (1)\<newline>1. Restricted Information - Not for Further Distribution''"
    unfolding contains_marker_iff by code_simp
  show "string_to_df ''Comments: (1)\<newline>1. Restricted Information - Not for Further Distribution''
       = Inr \<lparr>columns = [''comment''],
              rows = [[Str ''Restricted Information - Not for Further Distribution'']]\<rparr>"
    by code_simp
  show "Some (Str notice) \<in> set (column_values
         \<lparr>columns = [''comment''],
          rows = [[Str ''Restricted Information - Not for Further Distribution'']]\<rparr> ''comment'')"
    by (simp add: column_values_def get_value_def notice_def)
qed

text \<open>
  Claim C4, amended. For a text with the section marker the table is built, and it is the
  table that the candidate lines give once every line exactly equal to the notice is taken
  out, wherever and however often such lines occur; a record equals the notice only when a
  candidate line that is not exactly the notice reduces to it by prefix stripping and
  trimming.
\<close>

theorem exact_notice_lines_dropped:
  assumes "contains_marker s"
  shows "\<exists>df. string_to_df s = Inr df
           \<and> df = comments_to_df (filter (\<lambda>l. l \<noteq> notice) (comment_list_raw (re_split_comments s)))
           \<and> (Some (Str notice) \<in> set (column_values df ''comment'') \<longrightarrow>
                (\<exists>l \<in> set (comment_list_raw (re_split_comments s)).
                     l \<noteq> notice \<and> strip (split_last l) = notice))"
proof -
  let ?raw = "comment_list_raw (re_split_comments s)"
  have "string_to_df s = Inr (comments_to_df ?raw)"
    using assms by (rule string_to_df_marker)
  moreover have "comments_to_df ?raw = comments_to_df (filter (\<lambda>l. l \<noteq> notice) ?raw)"
    by (simp only: comments_to_df_without_notice)
  moreover have "Some (Str notice) \<in> set (column_values (comments_to_df ?raw) ''comment'') \<longrightarrow>
                (\<exists>l \<in> set ?raw. l \<noteq> notice \<and> strip (split_last l) = notice)"
    using notice_record_origin by blast
  ultimately show ?thesis by blast
qed

text \<open>The amended C4 at a text whose first and last candidate lines are the notice.\<close>

theorem exact_notice_lines_dropped_witness:
  "contains_marker ''Comments: (2)\<newline>Restricted Information - Not for Further Distribution\<newline>1. ok\<newline>Restricted Information - Not for Further Distribution''
   \<and> string_to_df ''Comments: (2)\<newline>Restricted Information - Not for Further Distribution\<newline>1. ok\<newline>Restricted Information - Not for Further Distribution''
       = Inr (comments_to_df [''1. ok''])
   \<and> comments_to_df [''1. ok''] = \<lparr>columns = [''comment''], rows = [[Str ''ok'']]\<rparr>"
proof -
  let ?s = "''Comments: (2)\<newline>Restricted Information - Not for Further Distribution\<newline>1. ok\<newline>Restricted Information - Not for Further Distribution''"
  have h: "contains_marker ?s"
    unfolding contains_marker_iff by code_simp
  have f: "filter (\<lambda>l. l \<noteq> notice) (comment_list_raw (re_split_comments ?s)) = [''1. ok'']"
    by code_simp
  have c: "comments_to_df [''1. ok''] = \<lparr>columns = [''comment''], rows = [[Str ''ok'']]\<rparr>"
    by code_simp
  from exact_notice_lines_dropped [OF h] f have "string_to_df ?s = Inr (comments_to_df [''1. ok''])"
    by auto
  with h c show ?thesis by blast
qed

text \<open>
  Claim C8. A text that holds no section marker (\<open>Comments: (\<close>, one or more digits, the
  closing parenthesis) makes \<open>string_to_df\<close> raise the error \<open>The Comments section was not
  found\<close>; no table is returned.
\<close>

theorem missing_marker_raises:
  assumes "\<not> contains_marker s"
  shows "string_to_df s = Inl (ValueError ''The Comments section was not found'')"
  using assms by (simp add: string_to_df_def contains_marker_iff)

text \<open>C8 at a text whose parentheses hold no digit.\<close>

theorem missing_marker_raises_witness:
  "\<not> contains_marker ''Comments: ()\<newline>1. Great place to work.''
   \<and> string_to_df ''Comments: ()\<newline>1. Great place to work.''
       = Inl (ValueError ''The Comments section was not found'')"
proof -
  have h: "\<not> contains_marker ''Comments: ()\<newline>1. Great place to work.''"
    unfolding contains_marker_iff by code_simp
  from missing_marker_raises [OF h] h show ?thesis by simp
qed

section \<open>Properties of the duplicate comparison\<close>

lemma keep_first_keys:
  "distinct (map key (keep_first seen key rs)) \<and>
   set (map key (keep_first seen key rs)) = key ` set rs - set seen"
proof (induction rs arbitrary: seen)
  case Nil
  show ?case by simp
next
  case (Cons r rs)
  show ?case
  proof (cases "key r \<in> set seen")
    case True
    with Cons [of seen] show ?thesis by auto
  next
    case False
    with Cons [of "key r # seen"] show ?thesis by auto
  qed
qed

lemma length_keep_first: "length (keep_first [] key rs) = card (key ` set rs)"
proof -
  have d: "distinct (map key (keep_first [] key rs))"
    and s: "set (map key (keep_first [] key rs)) = key ` set rs"
    using keep_first_keys [of key "[]" rs] by simp_all
  have "card (set (map key (keep_first [] key rs))) = length (map key (keep_first [] key rs))"
    using d by (rule distinct_card)
  then show ?thesis by (simp only: s length_map)
qed

lemma matches_distinct:
  assumes "distinct (map key r)"
  shows "length (filter (\<lambda>b. key b = k) r) = (if k \<in> key ` set r then 1 else 0)"
  using assms by (induction r) auto

lemma length_pairs:
  assumes "distinct (map keyl l)" and "distinct (map keyr r)"
  shows "length (concat (map (\<lambda>a. map (\<lambda>b. (a, b)) (filter (\<lambda>b. keyr b = keyl a) r)) l))
         = card (keyl ` set l \<inter> keyr ` set r)"
  using assms(1)
proof (induction l)
  case Nil
  show ?case by simp
next
  case (Cons a l)
  then have new: "keyl a \<notin> keyl ` set l" and d: "distinct (map keyl l)" by auto
  have fin: "finite (keyl ` set l \<inter> keyr ` set r)" by simp
  show ?case
  proof (cases "keyl a \<in> keyr ` set r")
    case True
    then have "keyl ` set (a # l) \<inter> keyr ` set r = insert (keyl a) (keyl ` set l \<inter> keyr ` set r)"
      by auto
    moreover have "keyl a \<notin> keyl ` set l \<inter> keyr ` set r" using new by simp
    ultimately have "card (keyl ` set (a # l) \<inter> keyr ` set r) = Suc (card (keyl ` set l \<inter> keyr ` set r))"
      using fin by simp
    then show ?thesis using Cons.IH [OF d] True by (simp add: matches_distinct [OF assms(2)])
  next
    case False
    then have "keyl ` set (a # l) \<inter> keyr ` set r = keyl ` set l \<inter> keyr ` set r"
      by auto
    then show ?thesis using Cons.IH [OF d] False by (simp add: matches_distinct [OF assms(2)])
  qed
qed

lemma length_rows_drop_duplicates:
  "length (rows (drop_duplicates c fr)) = card (set (column_values fr c))"
  by (simp add: drop_duplicates_def length_keep_first column_values_def)

lemma length_merge_rows_unique:
  "length (merge_rows c (drop_duplicates c df1) (drop_duplicates c df2))
     = card (set (column_values df1 c) \<inter> set (column_values df2 c))"
proof -
  let ?k1 = "\<lambda>r. get_value (columns df1) r c" and ?k2 = "\<lambda>r. get_value (columns df2) r c"
  let ?u1 = "keep_first [] ?k1 (rows df1)" and ?u2 = "keep_first [] ?k2 (rows df2)"
  have "length (merge_rows c (drop_duplicates c df1) (drop_duplicates c df2))
      = length (concat (map (\<lambda>a. map (\<lambda>b. (a, b)) (filter (\<lambda>b. ?k2 b = ?k1 a) ?u2)) ?u1))"
    by (simp add: merge_rows_def drop_duplicates_def)
  also have "\<dots> = card (?k1 ` set ?u1 \<inter> ?k2 ` set ?u2)"
    using keep_first_keys [of ?k1 "[]" "rows df1"] keep_first_keys [of ?k2 "[]" "rows df2"]
    by (intro length_pairs) simp_all
  also have "?k1 ` set ?u1 = set (column_values df1 c)"
    using keep_first_keys [of ?k1 "[]" "rows df1"] by (simp add: column_values_def)
  also have "?k2 ` set ?u2 = set (column_values df2 c)"
    using keep_first_keys [of ?k2 "[]" "rows df2"] by (simp add: column_values_def)
  finally show ?thesis .
qed

lemma overlap_percentage_commute: "overlap_percentage K1 K2 = overlap_percentage K2 K1"
  by (simp add: overlap_percentage_def Int_commute min.commute)

lemma column_values_Nil: "column_values fr c = [] \<longleftrightarrow> rows fr = []"
  by (simp add: column_values_def)

lemma overlap_percentage_self:
  "finite K \<Longrightarrow> overlap_percentage K K = (if K = {} then 0 else 100)"
  by (simp add: overlap_percentage_def)

lemma rows_drop_duplicates_Nil: "rows (drop_duplicates c fr) = [] \<longleftrightarrow> rows fr = []"
  by (cases "rows fr") (simp_all add: drop_duplicates_def)

text \<open>
  With a \<open>comment\<close> column on both sides, the comparison raises what the merge of the
  deduplicated frames raises, and otherwise returns the specification's formula on the two
  sets of comment values.
\<close>

lemma count_duplicates_conv:
  assumes "''comment'' \<in> set (columns df1)" and "''comment'' \<in> set (columns df2)"
  shows "count_duplicates df1 df2 =
           (case merge_error ''comment'' (drop_duplicates ''comment'' df1)
                   (drop_duplicates ''comment'' df2) of
              Some e \<Rightarrow> Inl e
            | None \<Rightarrow> Inr (overlap_percentage (set (column_values df1 ''comment''))
                             (set (column_values df2 ''comment''))))"
proof (cases "merge_error ''comment'' (drop_duplicates ''comment'' df1)
                   (drop_duplicates ''comment'' df2)")
  case (Some e)
  with assms show ?thesis
    by (simp add: count_duplicates_def merge_inner_def Let_def)
next
  case None
  with assms show ?thesis
    by (auto simp add: count_duplicates_def merge_inner_def Let_def truediv_def
        overlap_percentage_def length_rows_drop_duplicates length_merge_rows_unique min_def)
qed



lemma count_duplicates_returns_commute:
  assumes "count_duplicates df1 df2 = Inr x" and "count_duplicates df2 df1 = Inr y"
  shows "x = y"
proof (cases "''comment'' \<in> set (columns df1) \<and> ''comment'' \<in> set (columns df2)")
  case True
  with assms show ?thesis
    by (auto simp: count_duplicates_conv overlap_percentage_commute [of "set (column_values df1 ''comment'')"]
        split: option.splits)
next
  case False
  with assms show ?thesis by (auto simp: count_duplicates_def)
qed

subsection \<open>The merge of a frame with itself\<close>

lemma duplicated_seen_map_inj:
  assumes "inj_on f (set seen \<union> set xs)"
  shows "duplicated_seen (map f seen) (map f xs) = duplicated_seen seen xs"
  using assms
proof (induction xs arbitrary: seen)
  case Nil
  show ?case by simp
next
  case (Cons x xs)
  have m: "f x \<in> f ` set seen \<longleftrightarrow> x \<in> set seen"
    using Cons.prems by (auto simp: inj_on_def)
  have "inj_on f (set (x # seen) \<union> set xs)"
    using Cons.prems by (simp add: Un_commute insert_commute)
  from Cons.IH [OF this] m show ?case by simp
qed

lemma duplicated_map_inj: "inj_on f (set xs) \<Longrightarrow> duplicated (map f xs) = duplicated xs"
  using duplicated_seen_map_inj [of f "[]" xs] by (simp add: duplicated_def)

lemma suffix_duplicates_same:
  assumes "duplicated renamed = duplicated labels"
  shows "suffix_duplicates labels renamed = []"
proof -
  have "\<not> (new \<and> \<not> old)" if "(x, new, old) \<in> set (zip renamed (zip (duplicated labels) (duplicated labels)))"
    for x new old
    using that by (auto simp: in_set_zip)
  then show ?thesis
    unfolding suffix_duplicates_def assms by (auto simp: filter_empty_conv)
qed

lemma suffixed_not_comment: "x @ ''_x'' \<noteq> ''comment''" "x @ ''_y'' \<noteq> ''comment''"
proof -
  have "last (x @ ''_x'') \<noteq> last ''comment''" by simp
  then show "x @ ''_x'' \<noteq> ''comment''" by metis
  have "last (x @ ''_y'') \<noteq> last ''comment''" by simp
  then show "x @ ''_y'' \<noteq> ''comment''" by metis
qed

lemma items_overlap_dups_self: "items_overlap_dups ''comment'' cs cs = []"
proof -
  let ?right = "filter (\<lambda>k. k \<noteq> ''comment'') cs"
  let ?to_rename = "filter (\<lambda>k. k \<in> set ?right) cs"
  have l: "inj_on (\<lambda>x. if x \<in> set ?to_rename then x @ ''_x'' else x) (set cs)"
    by (auto simp: inj_on_def suffixed_not_comment)
  have r: "inj_on (\<lambda>x. if x \<in> set ?to_rename then x @ ''_y'' else x) (set ?right)"
    by (auto simp: inj_on_def)
  have "suffix_duplicates cs (rename_overlap ''_x'' ?to_rename cs) = []"
    unfolding rename_overlap_def by (intro suffix_duplicates_same duplicated_map_inj l)
  moreover have "suffix_duplicates ?right (rename_overlap ''_y'' ?to_rename ?right) = []"
    unfolding rename_overlap_def by (intro suffix_duplicates_same duplicated_map_inj r)
  ultimately show ?thesis by (simp add: items_overlap_dups_def Let_def)
qed

lemma merge_error_self:
  "merge_error ''comment'' (drop_duplicates ''comment'' A) (drop_duplicates ''comment'' A) = None"
  by (simp add: merge_error_def dtype_mismatch_def items_overlap_dups_self)


subsection \<open>The claims on the comparison\<close>

text \<open>
  Claim C5. A table with a \<open>comment\<close> column compared with itself gives 100 when its
  deduplicated form has a row and 0 when the table has no row; the deduplicated form has
  no row exactly when the table has none, so the two cases cover every table. The merge of
  a frame with itself never raises: both key columns are the same, and every other label
  is suffixed on both sides.
\<close>

theorem self_comparison:
  assumes "''comment'' \<in> set (columns A)"
  shows "(rows (drop_duplicates ''comment'' A) \<noteq> [] \<longrightarrow> count_duplicates A A = Inr 100)
       \<and> (rows A = [] \<longrightarrow> count_duplicates A A = Inr 0)
       \<and> (rows (drop_duplicates ''comment'' A) = [] \<longleftrightarrow> rows A = [])"
proof -
  have e: "rows (drop_duplicates ''comment'' A) = [] \<longleftrightarrow> rows A = []"
    by (rule rows_drop_duplicates_Nil)
  have c: "count_duplicates A A = Inr (if rows A = [] then 0 else 100)"
    using assms
    by (simp add: count_duplicates_conv merge_error_self overlap_percentage_self column_values_Nil)
  from e c show ?thesis by simp
qed

text \<open>C5 at a table of three rows, two of them with the same comment, and at the empty table.\<close>

theorem self_comparison_witness:
  "''comment'' \<in> set (columns \<lparr>columns = [''id'', ''comment''],
        rows = [[Num 1, Str ''a''], [Num 2, Str ''b''], [Num 3, Str ''a'']]\<rparr>)
   \<and> rows (drop_duplicates ''comment'' \<lparr>columns = [''id'', ''comment''],
        rows = [[Num 1, Str ''a''], [Num 2, Str ''b''], [Num 3, Str ''a'']]\<rparr>)
       = [[Num 1, Str ''a''], [Num 2, Str ''b'']]
   \<and> count_duplicates
        \<lparr>columns = [''id'', ''comment''],
         rows = [[Num 1, Str ''a''], [Num 2, Str ''b''], [Num 3, Str ''a'']]\<rparr>
        \<lparr>columns = [''id'', ''comment''],
         rows = [[Num 1, Str ''a''], [Num 2, Str ''b''], [Num 3, Str ''a'']]\<rparr> = Inr 100
   \<and> count_duplicates \<lparr>columns = [''comment''], rows = []\<rparr>
        \<lparr>columns = [''comment''], rows = []\<rparr> = Inr 0"
proof -
  let ?A = "\<lparr>columns = [''id'', ''comment''],
        rows = [[Num 1, Str ''a''], [Num 2, Str ''b''], [Num 3, Str ''a'']]\<rparr>"
  let ?E = "\<lparr>columns = [''comment''], rows = []\<rparr>"
  have h: "''comment'' \<in> set (columns ?A)" by simp
  have u: "rows (drop_duplicates ''comment'' ?A) = [[Num 1, Str ''a''], [Num 2, Str ''b'']]"
    by (simp add: drop_duplicates_def get_value_def)
  have h': "''comment'' \<in> set (columns ?E)" by simp
  from self_comparison [OF h] u have "count_duplicates ?A ?A = Inr 100" by simp
  moreover from self_comparison [OF h'] have "count_duplicates ?E ?E = Inr 0" by simp
  ultimately show ?thesis using h u by (intro conjI)
qed

text \<open>
  The scenario of the specification, where the two deduplicated tables have different
  sizes: the comments a, b, c against b, c, d, e, in both orders.
\<close>

lemma scenario_both_orders:
  "count_duplicates
     \<lparr>columns = [''comment''], rows = [[Str ''a''], [Str ''b''], [Str ''c'']]\<rparr>
     \<lparr>columns = [''comment''], rows = [[Str ''b''], [Str ''c''], [Str ''d''], [Str ''e'']]\<rparr>
     = Inr (200 / 3)"
  "count_duplicates
     \<lparr>columns = [''comment''], rows = [[Str ''b''], [Str ''c''], [Str ''d''], [Str ''e'']]\<rparr>
     \<lparr>columns = [''comment''], rows = [[Str ''a''], [Str ''b''], [Str ''c'']]\<rparr>
     = Inr (200 / 3)"
  by code_simp+

text \<open>
  Claim C6 says that for some pair of tables with a \<open>comment\<close> column the comparison of A
  with B does not equal the comparison of B with A, the denominator being the smaller set.
  The overlap and the smaller of the two sizes do not depend on the order: the scenario of
  the specification gives two thirds of 100 in both orders, and no pair of tables gives two
  different percentages.
\<close>

theorem percentages_differ_counterexample:
  "count_duplicates
     \<lparr>columns = [''comment''], rows = [[Str ''a''], [Str ''b''], [Str ''c'']]\<rparr>
     \<lparr>columns = [''comment''], rows = [[Str ''b''], [Str ''c''], [Str ''d''], [Str ''e'']]\<rparr>
     = Inr (200 / 3)
   \<and> count_duplicates
     \<lparr>columns = [''comment''], rows = [[Str ''b''], [Str ''c''], [Str ''d''], [Str ''e'']]\<rparr>
     \<lparr>columns = [''comment''], rows = [[Str ''a''], [Str ''b''], [Str ''c'']]\<rparr>
     = Inr (200 / 3)
   \<and> \<not> (\<exists>A B x y. ''comment'' \<in> set (columns A) \<and> ''comment'' \<in> set (columns B)
          \<and> count_duplicates A B = Inr x \<and> count_duplicates B A = Inr y \<and> x \<noteq> y)"
  using scenario_both_orders count_duplicates_returns_commute by (intro conjI) blast+

text \<open>
  Claim C6, amended. The comparison is symmetric wherever it returns: for all tables A and
  B, when comparing A with B and comparing B with A both return a value, the two values
  are equal.
\<close>

theorem comparison_symmetric_where_it_returns:
  assumes "count_duplicates A B = Inr x" and "count_duplicates B A = Inr y"
  shows "x = y"
  using assms by (rule count_duplicates_returns_commute)

text \<open>The amended C6 at two tables with a shared label \<open>id\<close>, of two rows and of one row.\<close>

theorem comparison_symmetric_where_it_returns_witness:
  "count_duplicates
     \<lparr>columns = [''comment'', ''id''], rows = [[Str ''a'', Num 1], [Str ''b'', Num 2]]\<rparr>
     \<lparr>columns = [''id'', ''comment''], rows = [[Num 5, Str ''b'']]\<rparr> = Inr 100
   \<and> count_duplicates
     \<lparr>columns = [''id'', ''comment''], rows = [[Num 5, Str ''b'']]\<rparr>
     \<lparr>columns = [''comment'', ''id''], rows = [[Str ''a'', Num 1], [Str ''b'', Num 2]]\<rparr> = Inr 100"
proof -
  let ?A = "\<lparr>columns = [''comment'', ''id''], rows = [[Str ''a'', Num 1], [Str ''b'', Num 2]]\<rparr>"
  let ?B = "\<lparr>columns = [''id'', ''comment''], rows = [[Num 5, Str ''b'']]\<rparr>"
  have h1: "count_duplicates ?A ?B = Inr 100" by code_simp
  have "count_duplicates ?B ?A = Inr 100" by code_simp
  then have "\<exists>y. count_duplicates ?B ?A = Inr y" by (rule exI)
  then obtain y where h2: "count_duplicates ?B ?A = Inr y" ..
  from comparison_symmetric_where_it_returns [OF h1 h2] have "y = 100" by simp
  with h1 h2 show ?thesis by simp
qed







section \<open>Properties of the sentence splitter\<close>

text \<open>
  Claim C3 says that no record of the sentence table is the empty string. The source drops
  the fragments equal to one space only; the empty fragment after a final period is kept
  and is still empty after trimming.
\<close>

theorem trailing_period_gives_empty_record:
  "break_into_sentences \<lparr>columns = [''comment''], rows = [[Str ''Great place to work.'']]\<rparr>
     = Inr \<lparr>columns = [''comment''], rows = [[Str ''Great place to work''], [Str []]]\<rparr>"
  by code_simp

section \<open>Properties of the topic subset export\<close>

lemma isin_iff:
  "isin selected v \<longleftrightarrow> (\<exists>i \<in> set selected. v = Some (Num i))"
  by (auto simp: isin_def split: option.splits cell.splits)

lemma zip_drop_label:
  assumes "length r = length cols"
  shows "zip (filter (\<lambda>k. k \<noteq> c) cols) (map snd (filter (\<lambda>(k, x). k \<noteq> c) (zip cols r)))
         = filter (\<lambda>(k, x). k \<noteq> c) (zip cols r)"
proof -
  have "map fst (filter (\<lambda>(k, x). k \<noteq> c) (zip cols r)) = filter (\<lambda>k. k \<noteq> c) cols"
    using assms by (induction cols r rule: list_induct2') auto
  then have "zip (filter (\<lambda>k. k \<noteq> c) cols) (map snd (filter (\<lambda>(k, x). k \<noteq> c) (zip cols r)))
      = zip (map fst (filter (\<lambda>(k, x). k \<noteq> c) (zip cols r)))
            (map snd (filter (\<lambda>(k, x). k \<noteq> c) (zip cols r)))"
    by simp
  also have "\<dots> = filter (\<lambda>(k, x). k \<noteq> c) (zip cols r)"
    by (rule zip_map_fst_snd)
  finally show ?thesis .
qed

lemma length_drop_label:
  assumes "length r = length cols"
  shows "length (filter (\<lambda>(k, x). k \<noteq> c) (zip cols r)) = length (filter (\<lambda>k. k \<noteq> c) cols)"
  using assms by (induction cols r rule: list_induct2') auto

lemma row_items_drop_columns:
  assumes "list_all (\<lambda>r. length r = length (columns fr)) (rows fr)"
  shows "map (row_items (drop_columns c fr)) (rows (drop_columns c fr))
         = map (\<lambda>r. filter (\<lambda>(k, x). k \<noteq> c) (row_items fr r)) (rows fr)"
  using assms
  by (simp add: drop_columns_def row_items_def list_all_iff zip_drop_label)

lemma wf_drop_columns:
  assumes "wf_dataframe fr"
  shows "wf_dataframe (drop_columns c fr)"
  using assms
  by (simp add: wf_dataframe_def drop_columns_def list_all_iff length_drop_label)

text \<open>
  Claim C2. For a frame with a \<open>topics\<close> column and any list of selected topic ids, the
  frame written by \<open>topic_aggregation\<close> has no \<open>topics\<close> column and keeps the other labels
  in their order; its rows, read as (label, value) pairs, are the rows of the input whose
  \<open>topics\<close> value is one of the selected ids, in their original order, each without its
  \<open>topics\<close> pair and with every other pair unchanged.
\<close>

theorem topic_subset:
  assumes "wf_dataframe fr" and "''topics'' \<in> set (columns fr)"
  shows "\<exists>out. topic_aggregation save_path selected fr = Inr (save_path, out)
           \<and> ''topics'' \<notin> set (columns out)
           \<and> columns out = filter (\<lambda>k. k \<noteq> ''topics'') (columns fr)
           \<and> map (row_items out) (rows out)
               = map (\<lambda>r. filter (\<lambda>(k, x). k \<noteq> ''topics'') (row_items fr r))
                   (filter (\<lambda>r. \<exists>i \<in> set selected. get_value (columns fr) r ''topics'' = Some (Num i))
                      (rows fr))
           \<and> wf_dataframe out"
proof -
  let ?kept = "fr\<lparr>rows := filter (\<lambda>r. isin selected (get_value (columns fr) r ''topics'')) (rows fr)\<rparr>"
  let ?out = "drop_columns ''topics'' ?kept"
  have w: "wf_dataframe ?kept"
    using assms(1) by (simp add: wf_dataframe_def list_all_iff)
  have "topic_aggregation save_path selected fr = Inr (save_path, ?out)"
    using assms(2) by (simp add: topic_aggregation_def column_def)
  moreover have "columns ?out = filter (\<lambda>k. k \<noteq> ''topics'') (columns fr)"
    by (simp add: drop_columns_def)
  moreover have "map (row_items ?out) (rows ?out)
               = map (\<lambda>r. filter (\<lambda>(k, x). k \<noteq> ''topics'') (row_items fr r))
                   (filter (\<lambda>r. \<exists>i \<in> set selected. get_value (columns fr) r ''topics'' = Some (Num i))
                      (rows fr))"
  proof -
    have "map (row_items ?out) (rows ?out)
        = map (\<lambda>r. filter (\<lambda>(k, x). k \<noteq> ''topics'') (row_items ?kept r)) (rows ?kept)"
      using w by (intro row_items_drop_columns) (simp add: wf_dataframe_def)
    then show ?thesis by (simp add: row_items_def isin_iff)
  qed
  moreover have "wf_dataframe ?out"
    using w by (rule wf_drop_columns)
  ultimately show ?thesis by auto
qed

text \<open>
  C2 at the scenario of the specification: five rows with the topics 1, 2, 3, 1, 2 and the
  selection 1, 3 give the three rows of the topics 1, 3, 1.
\<close>

theorem topic_subset_witness:
  "wf_dataframe \<lparr>columns = [''comment'', ''topics''],
      rows = [[Str ''a'', Num 1], [Str ''b'', Num 2], [Str ''c'', Num 3],
              [Str ''d'', Num 1], [Str ''e'', Num 2]]\<rparr>
   \<and> ''topics'' \<in> set (columns \<lparr>columns = [''comment'', ''topics''],
      rows = [[Str ''a'', Num 1], [Str ''b'', Num 2], [Str ''c'', Num 3],
              [Str ''d'', Num 1], [Str ''e'', Num 2]]\<rparr>)
   \<and> (\<exists>out. topic_aggregation ''subset.csv'' [1, 3]
          \<lparr>columns = [''comment'', ''topics''],
           rows = [[Str ''a'', Num 1], [Str ''b'', Num 2], [Str ''c'', Num 3],
                   [Str ''d'', Num 1], [Str ''e'', Num 2]]\<rparr> = Inr (''subset.csv'', out)
        \<and> columns out = [''comment'']
        \<and> map (row_items out) (rows out)
            = [[(''comment'', Str ''a'')], [(''comment'', Str ''c'')], [(''comment'', Str ''d'')]])"
proof -
  let ?F = "\<lparr>columns = [''comment'', ''topics''],
      rows = [[Str ''a'', Num 1], [Str ''b'', Num 2], [Str ''c'', Num 3],
              [Str ''d'', Num 1], [Str ''e'', Num 2]]\<rparr>"
  have h1: "wf_dataframe ?F" by (simp add: wf_dataframe_def)
  have h2: "''topics'' \<in> set (columns ?F)" by simp
  from topic_subset [OF h1 h2, of "''subset.csv''" "[1, 3]"]
  obtain out where o: "topic_aggregation ''subset.csv'' [1, 3] ?F = Inr (''subset.csv'', out)"
    and c: "columns out = filter (\<lambda>k. k \<noteq> ''topics'') (columns ?F)"
    and r: "map (row_items out) (rows out)
               = map (\<lambda>r. filter (\<lambda>(k, x). k \<noteq> ''topics'') (row_items ?F r))
                   (filter (\<lambda>r. \<exists>i \<in> set [1, 3]. get_value (columns ?F) r ''topics'' = Some (Num i))
                      (rows ?F))"
    by blast
  from c have c': "columns out = [''comment'']" by simp
  from r have r': "map (row_items out) (rows out)
            = [[(''comment'', Str ''a'')], [(''comment'', Str ''c'')], [(''comment'', Str ''d'')]]"
    by (simp add: row_items_def get_value_def)
  have "\<exists>out. topic_aggregation ''subset.csv'' [1, 3] ?F = Inr (''subset.csv'', out)
        \<and> columns out = [''comment'']
        \<and> map (row_items out) (rows out)
            = [[(''comment'', Str ''a'')], [(''comment'', Str ''c'')], [(''comment'', Str ''d'')]]"
    using o c' r' by (intro exI [of _ out] conjI)
  with h1 h2 show ?thesis by (intro conjI)
qed

section \<open>Properties of the session\<close>

lemma buttons_update_button_states:
  "detailed_info_button (update_button_states s) = (model_status_var s = ''Model training done.'')"
  "hierarchy_button (update_button_states s) = (model_status_var s = ''Model training done.'')"
  "barchart_button (update_button_states s) = (model_status_var s = ''Model training done.'')"
  "model_status_var (update_button_states s) = model_status_var s"
  "df (update_button_states s) = df s"
  "model (update_button_states s) = model s"
  by (simp_all add: update_button_states_def Let_def)

lemma status_start_model_training:
  "model_status_var (start_model_training t s) =
     (case t of Fitted m d \<Rightarrow> ''Model training done.'' | _ \<Rightarrow> ''Model training failed.'')"
  by (cases t) (simp_all add: update_model_status_def buttons_update_button_states)

lemma buttons_start_model_training:
  "detailed_info_button (start_model_training t s) = (\<exists>m d. t = Fitted m d)"
  "hierarchy_button (start_model_training t s) = (\<exists>m d. t = Fitted m d)"
  "barchart_button (start_model_training t s) = (\<exists>m d. t = Fitted m d)"
  by (cases t; simp add: update_model_status_def buttons_update_button_states)+

lemma phase_start_model_training:
  "phase_of (start_model_training t s) = (case t of Fitted m d \<Rightarrow> Some Ready | _ \<Rightarrow> Some Failed)"
  by (simp add: phase_of_def status_start_model_training split: training.splits)

lemma buttons_init:
  "\<not> detailed_info_button init" "\<not> hierarchy_button init" "\<not> barchart_button init"
  "phase_of init = Some Idle"
  by (simp_all add: init_def buttons_update_button_states phase_of_def)

lemma csv_subset_reads_df: "df s = df s' \<Longrightarrow> csv_subset topics f s = csv_subset topics f s'"
  by (cases topics) (simp_all add: csv_subset_def)

text \<open>
  Claim C9 says that outside the phase Ready the view commands and the subset export signal
  an error and do not run. After a training run that succeeded and a second one that failed,
  the session is in the phase Failed and the subset export writes the file from the frame of
  the first run; while the second run is in progress (phase Training) the view buttons are
  still enabled and a click runs the view command.
\<close>

theorem views_and_export_in_failed_phase_counterexample:
  "phase_of (start_model_training Raised_before_model (run_model
      (start_model_training
         (Fitted () \<lparr>columns = [''comment'', ''topics''], rows = [[Str ''a'', Num 1], [Str ''b'', Num 2]]\<rparr>)
         (run_model init)))) = Some Failed
   \<and> csv_subset (Some [1]) ''subset'' (start_model_training Raised_before_model (run_model
      (start_model_training
         (Fitted () \<lparr>columns = [''comment'', ''topics''], rows = [[Str ''a'', Num 1], [Str ''b'', Num 2]]\<rparr>)
         (run_model init))))
       = Inr (''subset.csv'', \<lparr>columns = [''comment''], rows = [[Str ''a'']]\<rparr>)
   \<and> phase_of (run_model
      (start_model_training
         (Fitted () \<lparr>columns = [''comment'', ''topics''], rows = [[Str ''a'', Num 1], [Str ''b'', Num 2]]\<rparr>)
         (run_model init))) = Some Training
   \<and> click_detailed_info (\<lambda>m. Shown) (run_model
      (start_model_training
         (Fitted () \<lparr>columns = [''comment'', ''topics''], rows = [[Str ''a'', Num 1], [Str ''b'', Num 2]]\<rparr>)
         (run_model init))) = Shown"
  by (simp add: init_def run_model_def update_model_status_def update_button_states_def
      phase_of_def csv_subset_def topic_aggregation_def column_def column_values_def
      drop_columns_def isin_def get_value_def click_detailed_info_def click_def view_command_def)

text \<open>
  Claim C9, amended. The three view buttons are disabled when the window is built, and
  after each training run they are enabled exactly when the run left the session in the
  phase Ready, that is when it succeeded; a click on a disabled button runs nothing. The
  subset export is not gated by the phase: its result depends only on the parsed topic
  list, the file name and the frame held in \<open>self.df\<close>, and it fails with AttributeError
  when no training run has set that frame.
\<close>

theorem buttons_follow_training_result:
  "(\<not> detailed_info_button (init :: 'm app) \<and> \<not> hierarchy_button (init :: 'm app)
      \<and> \<not> barchart_button (init :: 'm app))
   \<and> (\<forall>(t :: 'm training) (s :: 'm app).
              (detailed_info_button (start_model_training t s) \<longleftrightarrow>
                 phase_of (start_model_training t s) = Some Ready)
            \<and> (hierarchy_button (start_model_training t s) \<longleftrightarrow>
                 phase_of (start_model_training t s) = Some Ready)
            \<and> (barchart_button (start_model_training t s) \<longleftrightarrow>
                 phase_of (start_model_training t s) = Some Ready)
            \<and> (phase_of (start_model_training t s) = Some Ready \<longleftrightarrow> (\<exists>m d. t = Fitted m d))
            \<and> (phase_of (start_model_training t s) = Some Failed \<longleftrightarrow> (\<nexists>m d. t = Fitted m d)))
   \<and> (\<forall>(view :: 'm \<Rightarrow> view_result) (s :: 'm app).
              (\<not> detailed_info_button s \<longrightarrow> click_detailed_info view s = Not_invoked)
            \<and> (\<not> hierarchy_button s \<longrightarrow> click_hierarchy view s = Not_invoked)
            \<and> (\<not> barchart_button s \<longrightarrow> click_barchart view s = Not_invoked))
   \<and> (\<forall>topics f (s :: 'm app) (s' :: 'm app).
              df s = df s' \<longrightarrow> csv_subset topics f s = csv_subset topics f s')
   \<and> (\<forall>topics f (s :: 'm app).
              df s = None \<longrightarrow> csv_subset (Some topics) f s = Inl (AttributeError ''df''))"
proof -
  have r: "phase_of (start_model_training t s) = Some Ready \<longleftrightarrow> (\<exists>m d. t = Fitted m d)"
    for t :: "'m training" and s
    by (simp add: phase_start_model_training split: training.splits)
  have f: "phase_of (start_model_training t s) = Some Failed \<longleftrightarrow> (\<nexists>m d. t = Fitted m d)"
    for t :: "'m training" and s
    by (simp add: phase_start_model_training split: training.splits)
  have b: "\<forall>(t :: 'm training) (s :: 'm app).
              (detailed_info_button (start_model_training t s) \<longleftrightarrow>
                 phase_of (start_model_training t s) = Some Ready)
            \<and> (hierarchy_button (start_model_training t s) \<longleftrightarrow>
                 phase_of (start_model_training t s) = Some Ready)
            \<and> (barchart_button (start_model_training t s) \<longleftrightarrow>
                 phase_of (start_model_training t s) = Some Ready)
            \<and> (phase_of (start_model_training t s) = Some Ready \<longleftrightarrow> (\<exists>m d. t = Fitted m d))
            \<and> (phase_of (start_model_training t s) = Some Failed \<longleftrightarrow> (\<nexists>m d. t = Fitted m d))"
    by (simp only: buttons_start_model_training r f simp_thms)
  have c: "\<forall>(view :: 'm \<Rightarrow> view_result) (s :: 'm app).
              (\<not> detailed_info_button s \<longrightarrow> click_detailed_info view s = Not_invoked)
            \<and> (\<not> hierarchy_button s \<longrightarrow> click_hierarchy view s = Not_invoked)
            \<and> (\<not> barchart_button s \<longrightarrow> click_barchart view s = Not_invoked)"
    by (simp add: click_detailed_info_def click_hierarchy_def click_barchart_def click_def)
  have d: "\<forall>topics f (s :: 'm app) (s' :: 'm app).
              df s = df s' \<longrightarrow> csv_subset topics f s = csv_subset topics f s'"
    by (intro allI impI) (rule csv_subset_reads_df)
  have e: "\<forall>topics f (s :: 'm app).
              df s = None \<longrightarrow> csv_subset (Some topics) f s = Inl (AttributeError ''df'')"
    by (simp add: csv_subset_def)
  from buttons_init(1-3) b c d e show ?thesis by (intro conjI)
qed

text \<open>
  The amended C9 on a session whose first run succeeded and whose second run failed, and on
  the initial session.
\<close>

theorem buttons_follow_training_result_witness:
  "df (start_model_training (Raised_in_fit ()) (run_model
        (start_model_training
           (Fitted () \<lparr>columns = [''comment'', ''topics''], rows = [[Str ''a'', Num 1]]\<rparr>)
           (run_model init))))
     = df (start_model_training
           (Fitted () \<lparr>columns = [''comment'', ''topics''], rows = [[Str ''a'', Num 1]]\<rparr>)
           (run_model init))
   \<and> csv_subset (Some [1]) ''subset'' (start_model_training (Raised_in_fit ()) (run_model
        (start_model_training
           (Fitted () \<lparr>columns = [''comment'', ''topics''], rows = [[Str ''a'', Num 1]]\<rparr>)
           (run_model init))))
     = csv_subset (Some [1]) ''subset'' (start_model_training
           (Fitted () \<lparr>columns = [''comment'', ''topics''], rows = [[Str ''a'', Num 1]]\<rparr>)
           (run_model init))
   \<and> \<not> detailed_info_button (start_model_training (Raised_in_fit ()) (run_model
        (start_model_training
           (Fitted () \<lparr>columns = [''comment'', ''topics''], rows = [[Str ''a'', Num 1]]\<rparr>)
           (run_model init))))
   \<and> click_detailed_info (\<lambda>m. Shown) (start_model_training (Raised_in_fit ()) (run_model
        (start_model_training
           (Fitted () \<lparr>columns = [''comment'', ''topics''], rows = [[Str ''a'', Num 1]]\<rparr>)
           (run_model init)))) = Not_invoked
   \<and> df (init :: unit app) = None
   \<and> csv_subset (Some [1]) ''subset'' (init :: unit app) = Inl (AttributeError ''df'')"
proof -
  let ?ready = "start_model_training
           (Fitted () \<lparr>columns = [''comment'', ''topics''], rows = [[Str ''a'', Num 1]]\<rparr>)
           (run_model init)"
  let ?failed = "start_model_training (Raised_in_fit ()) (run_model ?ready)"
  note t = buttons_follow_training_result [where ?'m = unit]
  have h1: "df ?failed = df ?ready"
    by (simp add: run_model_def update_model_status_def update_button_states_def)
  have h2: "\<not> detailed_info_button ?failed"
    by (simp add: run_model_def update_model_status_def update_button_states_def)
  have h3: "df (init :: unit app) = None"
    by (simp add: init_def update_button_states_def)
  from t h1 have c1: "csv_subset (Some [1]) ''subset'' ?failed = csv_subset (Some [1]) ''subset'' ?ready"
    by blast
  from t h2 have c2: "click_detailed_info (\<lambda>m. Shown) ?failed = Not_invoked"
    by blast
  from t h3 have c3: "csv_subset (Some [1]) ''subset'' (init :: unit app) = Inl (AttributeError ''df'')"
    by blast
  from h1 c1 h2 c2 h3 c3 show ?thesis by (intro conjI)
qed

end
